theory Spec2Isabelle
  imports Main
begin

unbundle bit_operations_syntax

section \<open>The chess library as the program uses it\<close>

text \<open>
  \<^verbatim>\<open>src/chess.py\<close> delegates the rules of chess to the python-chess library. Two parts
  of the library are kept apart here.

  \<^item> The square arithmetic, the square names and the UCI parser are small pure functions
    of the library (\<^verbatim>\<open>chess.square\<close>, \<^verbatim>\<open>chess.square_rank\<close>, \<^verbatim>\<open>chess.square_name\<close>,
    \<^verbatim>\<open>chess.parse_square\<close>, \<^verbatim>\<open>chess.Move.from_uci\<close>). They are written out below as the
    library defines them, with Python's integers as \<open>int\<close> and every \<^verbatim>\<open>raise\<close> as a value.
  \<^item> The position (\<^verbatim>\<open>chess.Board\<close>) is a black box: the program only queries it and
    pushes moves to it. It is a parameter of the model, the record \<open>engine\<close> below.
\<close>

datatype error = ValueError | IndexError | AttributeError

text \<open>\<^verbatim>\<open>chess.WHITE\<close> is \<^verbatim>\<open>True\<close>, \<^verbatim>\<open>chess.BLACK\<close> is \<^verbatim>\<open>False\<close>; piece types are 1..6.\<close>

definition WHITE :: bool where "WHITE = True"
definition BLACK :: bool where "BLACK = False"

definition PAWN :: int where "PAWN = 1"
definition KNIGHT :: int where "KNIGHT = 2"
definition BISHOP :: int where "BISHOP = 3"
definition ROOK :: int where "ROOK = 4"
definition QUEEN :: int where "QUEEN = 5"
definition KING :: int where "KING = 6"

record Piece =
  piece_type :: int
  color :: bool

text \<open>
  \<^verbatim>\<open>chess.Move\<close>: the field \<^verbatim>\<open>drop\<close> is named \<open>drop_type\<close> here, \<open>drop\<close> being a list
  function of HOL.
\<close>

record Move =
  from_square :: int
  to_square :: int
  promotion :: "int option"
  drop_type :: "int option"

text \<open>
  \<^verbatim>\<open>FILE_NAMES = ["a", "b", "c", "d", "e", "f", "g", "h"]\<close> and
  \<^verbatim>\<open>RANK_NAMES = ["1", "2", "3", "4", "5", "6", "7", "8"]\<close>: one string per character.
\<close>

definition FILE_NAMES :: "string list" where
  "FILE_NAMES = map (\<lambda>c. [c]) ''abcdefgh''"

definition RANK_NAMES :: "string list" where
  "RANK_NAMES = map (\<lambda>c. [c]) ''12345678''"

text \<open>\<^verbatim>\<open>SQUARE_NAMES = [f + r for r in RANK_NAMES for f in FILE_NAMES]\<close>\<close>

definition SQUARE_NAMES :: "string list" where
  "SQUARE_NAMES = concat (map (\<lambda>r. map (\<lambda>f. f @ r) FILE_NAMES) RANK_NAMES)"

text \<open>\<^verbatim>\<open>PIECE_SYMBOLS = [None, "p", "n", "b", "r", "q", "k"]\<close>\<close>

definition PIECE_SYMBOLS :: "string option list" where
  "PIECE_SYMBOLS = [None, Some ''p'', Some ''n'', Some ''b'', Some ''r'', Some ''q'', Some ''k'']"

text \<open>\<^verbatim>\<open>list.index\<close>: the position of the first equal element, ValueError when there is none.\<close>

fun index_of :: "'a list \<Rightarrow> 'a \<Rightarrow> error + int" where
  "index_of [] x = Inl ValueError"
| "index_of (y # ys) x =
     (if y = x then Inr 0
      else case index_of ys x of Inl e \<Rightarrow> Inl e | Inr i \<Rightarrow> Inr (i + 1))"

text \<open>
  \<^verbatim>\<open>xs[i]\<close> on a Python list: a negative index counts from the end, an index out of
  range raises IndexError.
\<close>

definition getitem :: "'a list \<Rightarrow> int \<Rightarrow> error + 'a" where
  "getitem xs i =
     (if 0 \<le> i \<and> i < int (length xs) then Inr (xs ! nat i)
      else if - int (length xs) \<le> i \<and> i < 0 then Inr (xs ! nat (int (length xs) + i))
      else Inl IndexError)"

text \<open>\<^verbatim>\<open>def square(file_index, rank_index): return rank_index * 8 + file_index\<close>\<close>

definition square :: "int \<Rightarrow> int \<Rightarrow> int" where
  "square file_index rank_index = rank_index * 8 + file_index"

text \<open>\<^verbatim>\<open>def square_file(square): return square & 7\<close>\<close>

definition square_file :: "int \<Rightarrow> int" where
  "square_file sq = sq AND 7"

text \<open>\<^verbatim>\<open>def square_rank(square): return square >> 3\<close>\<close>

definition square_rank :: "int \<Rightarrow> int" where
  "square_rank sq = drop_bit 3 sq"

text \<open>\<^verbatim>\<open>def square_name(square): return SQUARE_NAMES[square]\<close>\<close>

definition square_name :: "int \<Rightarrow> error + string" where
  "square_name sq = getitem SQUARE_NAMES sq"

text \<open>\<^verbatim>\<open>def parse_square(name): return SQUARE_NAMES.index(name)\<close>\<close>

definition parse_square :: "string \<Rightarrow> error + int" where
  "parse_square name = index_of SQUARE_NAMES name"

text \<open>\<^verbatim>\<open>str.lower\<close> on one ASCII character.\<close>

definition lower :: "char \<Rightarrow> char" where
  "lower c =
     (if of_char (CHR ''A'') \<le> (of_char c :: nat) \<and> (of_char c :: nat) \<le> of_char (CHR ''Z'')
      then char_of (of_char c + (32::nat)) else c)"

text \<open>
  \<^verbatim>\<open>chess.Move.from_uci\<close>: the null move \<^verbatim>\<open>"0000"\<close>, a drop \<^verbatim>\<open>"Q@e4"\<close>, or two square names
  with an optional promotion letter (python-chess 1.x). Every failure of the library is
  an \<^verbatim>\<open>InvalidMoveError\<close>, a subclass of \<^verbatim>\<open>ValueError\<close>; a move from a square to
  itself is one of them.
\<close>

definition from_uci :: "string \<Rightarrow> error + Move" where
  "from_uci uci =
     (if uci = ''0000'' then
        Inr \<lparr>from_square = 0, to_square = 0, promotion = None, drop_type = None\<rparr>
      else if length uci = 4 \<and> uci ! 1 = CHR ''@'' then
        (case index_of PIECE_SYMBOLS (Some [lower (uci ! 0)]) of
           Inl e \<Rightarrow> Inl ValueError
         | Inr d \<Rightarrow>
             (case index_of SQUARE_NAMES (drop 2 uci) of
                Inl e \<Rightarrow> Inl ValueError
              | Inr sq \<Rightarrow>
                  Inr \<lparr>from_square = sq, to_square = sq, promotion = None, drop_type = Some d\<rparr>))
      else if 4 \<le> length uci \<and> length uci \<le> 5 then
        (case index_of SQUARE_NAMES (take 2 uci) of
           Inl e \<Rightarrow> Inl ValueError
         | Inr f \<Rightarrow>
             (case index_of SQUARE_NAMES (take 2 (drop 2 uci)) of
                Inl e \<Rightarrow> Inl ValueError
              | Inr t \<Rightarrow>
                  (case (if length uci = 5
                         then (case index_of PIECE_SYMBOLS (Some [uci ! 4]) of
                                 Inl e \<Rightarrow> Inl e | Inr p \<Rightarrow> Inr (Some p))
                         else Inr None) of
                     Inl e \<Rightarrow> Inl ValueError
                   | Inr p \<Rightarrow>
                       if f = t then Inl ValueError
                       else Inr \<lparr>from_square = f, to_square = t, promotion = p,
                                 drop_type = None\<rparr>)))
      else Inl ValueError)"

text \<open>
  The position. \<open>'b\<close> is the type of \<^verbatim>\<open>chess.Board\<close> values; the program uses the
  constructor \<^verbatim>\<open>chess.Board()\<close>, \<^verbatim>\<open>piece_at\<close>, \<^verbatim>\<open>turn\<close>, the membership test
  \<^verbatim>\<open>move in board.legal_moves\<close>, \<^verbatim>\<open>push\<close> (which mutates the board: here it returns the new
  one) and the three status queries. The queries are total: the library answers them
  for every square 0..63 and every move without raising, and the program pushes legal
  moves only.
\<close>

record 'b engine =
  Board :: 'b
  piece_at :: "'b \<Rightarrow> int \<Rightarrow> Piece option"
  turn :: "'b \<Rightarrow> bool"
  legal_moves :: "'b \<Rightarrow> Move \<Rightarrow> bool"
  push :: "'b \<Rightarrow> Move \<Rightarrow> 'b"
  is_checkmate :: "'b \<Rightarrow> bool"
  is_stalemate :: "'b \<Rightarrow> bool"
  is_check :: "'b \<Rightarrow> bool"

section \<open>The program: \<^verbatim>\<open>src/chess.py\<close>\<close>

definition SQUARE_SIZE :: int where "SQUARE_SIZE = 80"
definition BOARD_SIZE :: int where "BOARD_SIZE = SQUARE_SIZE * 8"

subsection \<open>Coordinates\<close>

text \<open>
  The program maps a grid cell \<open>(col, row)\<close>, row 0 at the top, to the library's square
  with \<^verbatim>\<open>chess.square(col, 7 - row)\<close> (lines 73, 117 and 122).
\<close>

definition cell_to_square_id :: "int \<times> int \<Rightarrow> int" where
  "cell_to_square_id cell = (case cell of (col, row) \<Rightarrow> square col (7 - row))"

text \<open>
  Modelled from the spec: \<open>square_id_to_cell\<close> is not a function of \<^verbatim>\<open>src/chess.py\<close>
  (the program never maps a square back to a cell). The spec describes it as the inverse
  of \<open>cell_to_square_id\<close>, that is \<open>column = engine_file\<close> and \<open>row = 7 - engine_rank\<close>.
\<close>

definition square_id_to_cell :: "int \<Rightarrow> int \<times> int" where
  "square_id_to_cell sq = (square_file sq, 7 - square_rank sq)"

text \<open>\<^verbatim>\<open>chess.square_name(chess.square(col, 7 - row))\<close>, lines 117 and 122.\<close>

definition cell_square_name :: "int \<times> int \<Rightarrow> error + string" where
  "cell_square_name cell = square_name (cell_to_square_id cell)"

subsection \<open>The state of \<^verbatim>\<open>main\<close>\<close>

text \<open>
  The variables of \<^verbatim>\<open>main\<close> that live across events: the board, the flag \<open>running\<close>
  and \<open>selected_square_coords\<close> (\<^verbatim>\<open>None\<close> or a cell). \<open>built_moves\<close> is a history
  variable, not a variable of the program: the values of the local \<^verbatim>\<open>move\<close> with which
  the legality test of line 135 was reached, latest first. Nothing reads it.
\<close>

record 'b state =
  game_board :: 'b
  running :: bool
  selected_square_coords :: "(int \<times> int) option"
  built_moves :: "Move list"

text \<open>
  Events of \<^verbatim>\<open>pygame.event.get()\<close>: the program looks at the type of an event and, for a
  mouse button pressed, at its button and position.
\<close>

datatype event =
    QUIT
  | MOUSEBUTTONDOWN int "int \<times> int"
  | MOUSEBUTTONUP int "int \<times> int"
  | MOUSEMOTION "int \<times> int"
  | KEYDOWN int
  | KEYUP int
  | OTHER int

subsection \<open>Building the candidate move (lines 127 to 133)\<close>

text \<open>
  \<^verbatim>\<open>piece_at\<close> returns \<^verbatim>\<open>None\<close> on an empty square, and \<^verbatim>\<open>None.piece_type\<close> raises
  AttributeError before the rank is looked at.
\<close>

definition build_move :: "'b engine \<Rightarrow> 'b \<Rightarrow> string \<Rightarrow> error + Move" where
  "build_move E b move_uci =
     (case from_uci move_uci of
        Inl e \<Rightarrow> Inl e
      | Inr m \<Rightarrow>
          (case piece_at E b (from_square m) of
             None \<Rightarrow> Inl AttributeError
           | Some p \<Rightarrow>
               if piece_type p = PAWN \<and>
                  (square_rank (to_square m) = 7 \<or> square_rank (to_square m) = 0)
               then from_uci (move_uci @ ''q'')
               else Inr m))"

subsection \<open>The two clicks (lines 119 to 149)\<close>

text \<open>
  The second click. \<^verbatim>\<open>except ValueError: pass\<close> catches a ValueError of the \<^verbatim>\<open>try\<close> block
  and nothing else; the selection is reset after the \<^verbatim>\<open>try\<close> statement.
\<close>

definition second_click ::
  "'b engine \<Rightarrow> 'b state \<Rightarrow> int \<times> int \<Rightarrow> string \<Rightarrow> error + 'b state" where
  "second_click E st selected chess_square_name =
     (case cell_square_name selected of
        Inl e \<Rightarrow> Inl e
      | Inr start_square_name \<Rightarrow>
          (let move_uci = start_square_name @ chess_square_name in
           case build_move E (game_board st) move_uci of
             Inl e \<Rightarrow>
               if e = ValueError then Inr (st\<lparr>selected_square_coords := None\<rparr>)
               else Inl e
           | Inr m \<Rightarrow>
               Inr (st\<lparr>game_board :=
                          (if legal_moves E (game_board st) m
                           then push E (game_board st) m else game_board st),
                        selected_square_coords := None,
                        built_moves := m # built_moves st\<rparr>)))"

text \<open>The first click: \<^verbatim>\<open>if piece and piece.color == game_board.turn\<close>.\<close>

definition first_click ::
  "'b engine \<Rightarrow> 'b state \<Rightarrow> int \<times> int \<Rightarrow> string \<Rightarrow> error + 'b state" where
  "first_click E st clicked_coords chess_square_name =
     (case parse_square chess_square_name of
        Inl e \<Rightarrow> Inl e
      | Inr sq \<Rightarrow>
          (case piece_at E (game_board st) sq of
             None \<Rightarrow> Inr st
           | Some piece \<Rightarrow>
               if color piece = turn E (game_board st)
               then Inr (st\<lparr>selected_square_coords := Some clicked_coords\<rparr>)
               else Inr st))"

text \<open>
  A left click at pixel \<open>(x, y)\<close>, lines 107 to 149. \<^verbatim>\<open>//\<close> is floor division, as \<open>div\<close>
  on \<open>int\<close>. A tuple of two elements is true, \<^verbatim>\<open>None\<close> is false.
\<close>

definition left_click :: "'b engine \<Rightarrow> 'b state \<Rightarrow> int \<Rightarrow> int \<Rightarrow> error + 'b state" where
  "left_click E st x y =
     (let col = x div SQUARE_SIZE; row = y div SQUARE_SIZE in
      if 0 \<le> col \<and> col < 8 \<and> 0 \<le> row \<and> row < 8 then
        (let clicked_coords = (col, row) in
         case cell_square_name (col, row) of
           Inl e \<Rightarrow> Inl e
         | Inr chess_square_name \<Rightarrow>
             (case selected_square_coords st of
                Some selected \<Rightarrow> second_click E st selected chess_square_name
              | None \<Rightarrow> first_click E st clicked_coords chess_square_name))
      else Inr st)"

subsection \<open>The event loop (lines 100 to 149)\<close>

definition handle_event :: "'b engine \<Rightarrow> 'b state \<Rightarrow> event \<Rightarrow> error + 'b state" where
  "handle_event E st ev =
     (let st1 = (if ev = QUIT then st\<lparr>running := False\<rparr> else st) in
      case ev of
        MOUSEBUTTONDOWN button pos \<Rightarrow>
          if button = 1 then left_click E st1 (fst pos) (snd pos) else Inr st1
      | _ \<Rightarrow> Inr st1)"

text \<open>\<^verbatim>\<open>for event in pygame.event.get()\<close>: an exception ends the loop (and the program).\<close>

fun for_events :: "'b engine \<Rightarrow> 'b state \<Rightarrow> event list \<Rightarrow> error + 'b state" where
  "for_events E st [] = Inr st"
| "for_events E st (ev # evs) =
     (case handle_event E st ev of Inl e \<Rightarrow> Inl e | Inr st' \<Rightarrow> for_events E st' evs)"

text \<open>
  \<^verbatim>\<open>while running\<close>, one list of events per frame. The frames that the windowing layer
  will deliver are the argument; \<open>running\<close> is tested once per frame, so the events that
  follow a \<open>QUIT\<close> in the same frame are still handled.
\<close>

fun main_loop :: "'b engine \<Rightarrow> 'b state \<Rightarrow> event list list \<Rightarrow> error + 'b state" where
  "main_loop E st [] = Inr st"
| "main_loop E st (evs # frames) =
     (if running st
      then (case for_events E st evs of Inl e \<Rightarrow> Inl e | Inr st' \<Rightarrow> main_loop E st' frames)
      else Inr st)"

definition initial_state :: "'b engine \<Rightarrow> 'b state" where
  "initial_state E =
     \<lparr>game_board = Board E, running = True, selected_square_coords = None, built_moves = []\<rparr>"

definition main :: "'b engine \<Rightarrow> event list list \<Rightarrow> error + 'b state" where
  "main E frames = main_loop E (initial_state E) frames"

subsection \<open>The status line (lines 164 to 171)\<close>

definition status_text :: "'b engine \<Rightarrow> 'b \<Rightarrow> string" where
  "status_text E b =
     (let status_text = ''Turn: '' @ (if turn E b = WHITE then ''White'' else ''Black'') in
      if is_checkmate E b then
        ''CHECKMATE! '' @ (if turn E b = WHITE then ''Black Wins'' else ''White Wins'')
      else if is_stalemate E b then ''STALEMATE (Draw)''
      else if is_check E b then status_text @ '' (CHECK)''
      else status_text)"

section \<open>Predicates used in the statements\<close>

text \<open>The bounds test of line 112, \<^verbatim>\<open>0 <= col < 8 and 0 <= row < 8\<close>, on a cell.\<close>

definition in_bounds :: "int \<times> int \<Rightarrow> bool" where
  "in_bounds cell = (case cell of (c, r) \<Rightarrow> 0 \<le> c \<and> c < 8 \<and> 0 \<le> r \<and> r < 8)"

text \<open>
  The selection invariant: a selected cell is on the board and its square holds a piece of
  the side to move.
\<close>

definition selection_invariant :: "'b engine \<Rightarrow> 'b state \<Rightarrow> bool" where
  "selection_invariant E st =
     (case selected_square_coords st of
        None \<Rightarrow> True
      | Some (c, r) \<Rightarrow>
          0 \<le> c \<and> c < 8 \<and> 0 \<le> r \<and> r < 8 \<and>
          (case piece_at E (game_board st) (cell_to_square_id (c, r)) of
             None \<Rightarrow> False
           | Some p \<Rightarrow> color p = turn E (game_board st)))"

text \<open>
  A fact of chess that the engine maintains and the program relies on: no pawn stands on
  the first or the last rank (a pawn that reaches the last rank is promoted there).
\<close>

definition pawns_off_back_ranks :: "'b engine \<Rightarrow> 'b \<Rightarrow> bool" where
  "pawns_off_back_ranks E b =
     (\<forall>sq \<in> set [0..63].
        case piece_at E b sq of
          None \<Rightarrow> True
        | Some p \<Rightarrow> piece_type p = PAWN \<longrightarrow> square_rank sq \<noteq> 0 \<and> square_rank sq \<noteq> 7)"

text \<open>\<^verbatim>\<open>chess.Move(from_square, to_square, promotion)\<close> and the squares \<^verbatim>\<open>chess.E2\<close>, \<^verbatim>\<open>chess.E4\<close>.\<close>

definition new_Move :: "int \<Rightarrow> int \<Rightarrow> int option \<Rightarrow> Move" where
  "new_Move f t p = \<lparr>from_square = f, to_square = t, promotion = p, drop_type = None\<rparr>"

definition E2 :: int where "E2 = 12"
definition E4 :: int where "E4 = 28"

section \<open>A stub engine\<close>

text \<open>
  A small engine on which the model runs: a position is an association list from squares
  to pieces, the side to move, the list of moves the position accepts and its three status
  flags. Pushing a move carries the piece over (promoted if the move says so) and passes
  the turn. The concrete instances of the theorems below are computed on it.
\<close>

record stub_board =
  pieces :: "(int \<times> Piece) list"
  white_to_move :: bool
  accepted :: "Move list"
  checkmate :: bool
  stalemate :: bool
  in_check :: bool

definition stub_push :: "stub_board \<Rightarrow> Move \<Rightarrow> stub_board" where
  "stub_push b m =
     (case map_of (pieces b) (from_square m) of
        None \<Rightarrow> b\<lparr>white_to_move := \<not> white_to_move b, accepted := []\<rparr>
      | Some p \<Rightarrow>
          b\<lparr>pieces :=
              (to_square m, (case promotion m of None \<Rightarrow> p | Some t \<Rightarrow> p\<lparr>piece_type := t\<rparr>)) #
              filter (\<lambda>entry. fst entry \<noteq> from_square m \<and> fst entry \<noteq> to_square m) (pieces b),
            white_to_move := \<not> white_to_move b,
            accepted := []\<rparr>)"

definition stub_engine :: "stub_board \<Rightarrow> stub_board engine" where
  "stub_engine b0 =
     \<lparr>Board = b0,
      piece_at = (\<lambda>b. map_of (pieces b)),
      turn = white_to_move,
      legal_moves = (\<lambda>b m. m \<in> set (accepted b)),
      push = stub_push,
      is_checkmate = checkmate,
      is_stalemate = stalemate,
      is_check = in_check\<rparr>"

text \<open>White: Ke1, pawn e2. Black: Ke8, pawn e7. White to move; e2e3 and e2e4 are accepted.\<close>

definition stub_start :: stub_board where
  "stub_start =
     \<lparr>pieces = [(4, \<lparr>piece_type = KING, color = WHITE\<rparr>),
                (12, \<lparr>piece_type = PAWN, color = WHITE\<rparr>),
                (52, \<lparr>piece_type = PAWN, color = BLACK\<rparr>),
                (60, \<lparr>piece_type = KING, color = BLACK\<rparr>)],
      white_to_move = True,
      accepted = [new_Move 12 20 None, new_Move 12 28 None],
      checkmate = False, stalemate = False, in_check = False\<rparr>"

text \<open>White: Ke1, pawn e7. Black: Kh8. White to move; e7e8q is accepted.\<close>

definition stub_promotion :: stub_board where
  "stub_promotion =
     \<lparr>pieces = [(4, \<lparr>piece_type = KING, color = WHITE\<rparr>),
                (52, \<lparr>piece_type = PAWN, color = WHITE\<rparr>),
                (63, \<lparr>piece_type = KING, color = BLACK\<rparr>)],
      white_to_move = True,
      accepted = [new_Move 52 60 (Some QUEEN)],
      checkmate = False, stalemate = False, in_check = False\<rparr>"

text \<open>White: Ke1. Black: Qe2, Ke3. White to move and checkmated.\<close>

definition stub_mate :: stub_board where
  "stub_mate =
     \<lparr>pieces = [(4, \<lparr>piece_type = KING, color = WHITE\<rparr>),
                (12, \<lparr>piece_type = QUEEN, color = BLACK\<rparr>),
                (20, \<lparr>piece_type = KING, color = BLACK\<rparr>)],
      white_to_move = True,
      accepted = [],
      checkmate = True, stalemate = False, in_check = True\<rparr>"

text \<open>The state after a first click on e2 in \<open>stub_start\<close>.\<close>

definition stub_selected :: "stub_board state" where
  "stub_selected =
     \<lparr>game_board = stub_start, running = True, selected_square_coords = Some (4, 6),
      built_moves = []\<rparr>"

section \<open>Facts about the library functions\<close>

lemma SQUARE_NAMES_unfold:
  "SQUARE_NAMES =
    [''a1'', ''b1'', ''c1'', ''d1'', ''e1'', ''f1'', ''g1'', ''h1'',
     ''a2'', ''b2'', ''c2'', ''d2'', ''e2'', ''f2'', ''g2'', ''h2'',
     ''a3'', ''b3'', ''c3'', ''d3'', ''e3'', ''f3'', ''g3'', ''h3'',
     ''a4'', ''b4'', ''c4'', ''d4'', ''e4'', ''f4'', ''g4'', ''h4'',
     ''a5'', ''b5'', ''c5'', ''d5'', ''e5'', ''f5'', ''g5'', ''h5'',
     ''a6'', ''b6'', ''c6'', ''d6'', ''e6'', ''f6'', ''g6'', ''h6'',
     ''a7'', ''b7'', ''c7'', ''d7'', ''e7'', ''f7'', ''g7'', ''h7'',
     ''a8'', ''b8'', ''c8'', ''d8'', ''e8'', ''f8'', ''g8'', ''h8'']"
  by (simp add: SQUARE_NAMES_def FILE_NAMES_def RANK_NAMES_def)

lemma length_SQUARE_NAMES: "length SQUARE_NAMES = 64"
  by (simp add: SQUARE_NAMES_unfold)

lemma distinct_SQUARE_NAMES: "distinct SQUARE_NAMES"
  by (simp add: SQUARE_NAMES_unfold)

lemma SQUARE_NAMES_shape:
  "\<forall>n \<in> set SQUARE_NAMES. length n = 2 \<and> n ! 1 \<noteq> CHR ''@'' \<and> n ! 0 \<noteq> CHR ''0''"
  by (simp add: SQUARE_NAMES_unfold)

lemma index_of_nth:
  "distinct xs \<Longrightarrow> i < length xs \<Longrightarrow> index_of xs (xs ! i) = Inr (int i)"
proof (induction xs arbitrary: i)
  case Nil
  then show ?case by simp
next
  case (Cons y ys)
  show ?case
  proof (cases i)
    case 0
    then show ?thesis by simp
  next
    case (Suc j)
    with Cons.prems have "j < length ys" "ys ! j \<in> set ys" "y \<notin> set ys" "distinct ys"
      by auto
    with Cons.IH [of j] Suc show ?thesis by auto
  qed
qed

lemma take2_name:
  assumes "i < 64"
  shows "length (SQUARE_NAMES ! i) = 2" "SQUARE_NAMES ! i \<in> set SQUARE_NAMES"
    "(SQUARE_NAMES ! i) ! 1 \<noteq> CHR ''@''" "(SQUARE_NAMES ! i) ! 0 \<noteq> CHR ''0''"
  using assms SQUARE_NAMES_shape nth_mem [of i SQUARE_NAMES]
  by (auto simp: length_SQUARE_NAMES)

lemma from_uci_names:
  assumes "i < 64" "j < 64"
  shows "from_uci (SQUARE_NAMES ! i @ SQUARE_NAMES ! j) =
           (if i = j then Inl ValueError
            else Inr \<lparr>from_square = int i, to_square = int j, promotion = None,
                      drop_type = None\<rparr>)"
proof -
  let ?a = "SQUARE_NAMES ! i" and ?b = "SQUARE_NAMES ! j"
  have la: "length ?a = 2" and lb: "length ?b = 2"
    and at: "?a ! 1 \<noteq> CHR ''@''" and z: "?a ! 0 \<noteq> CHR ''0''"
    using take2_name assms by blast+
  have ne: "?a @ ?b \<noteq> ''0000''"
    using z la by (cases ?a) auto
  have nat1: "(?a @ ?b) ! 1 = ?a ! 1"
    using la by (simp add: nth_append)
  have ia: "index_of SQUARE_NAMES ?a = Inr (int i)"
    and ib: "index_of SQUARE_NAMES ?b = Inr (int j)"
    using assms by (simp_all add: index_of_nth distinct_SQUARE_NAMES length_SQUARE_NAMES)
  show ?thesis
    unfolding from_uci_def using ne nat1 at la lb ia ib by simp
qed

lemma from_uci_names_q:
  assumes "i < 64" "j < 64" "i \<noteq> j"
  shows "from_uci ((SQUARE_NAMES ! i @ SQUARE_NAMES ! j) @ ''q'') =
           Inr \<lparr>from_square = int i, to_square = int j, promotion = Some QUEEN,
                 drop_type = None\<rparr>"
proof -
  let ?a = "SQUARE_NAMES ! i" and ?b = "SQUARE_NAMES ! j"
  let ?u = "(?a @ ?b) @ ''q''"
  have la: "length ?a = 2" and lb: "length ?b = 2"
    using take2_name assms by blast+
  have ia: "index_of SQUARE_NAMES ?a = Inr (int i)"
    and ib: "index_of SQUARE_NAMES ?b = Inr (int j)"
    using assms by (simp_all add: index_of_nth distinct_SQUARE_NAMES length_SQUARE_NAMES)
  have n4: "?u ! 4 = CHR ''q''"
    using la lb by (simp add: nth_append)
  have q: "index_of PIECE_SYMBOLS (Some ''q'') = Inr QUEEN"
    by (simp add: PIECE_SYMBOLS_def QUEEN_def)
  have len: "length ?u = 5"
    using la lb by simp
  then have ne: "?u \<noteq> ''0000''"
    by auto
  have t1: "take 2 ?u = ?a" and t2: "take 2 (drop 2 ?u) = ?b"
    using la lb by simp_all
  have "from_uci ?u =
     (case index_of SQUARE_NAMES (take 2 ?u) of
           Inl e \<Rightarrow> Inl ValueError
         | Inr f \<Rightarrow>
             (case index_of SQUARE_NAMES (take 2 (drop 2 ?u)) of
                Inl e \<Rightarrow> Inl ValueError
              | Inr t \<Rightarrow>
                  (case (case index_of PIECE_SYMBOLS (Some [?u ! 4]) of
                                 Inl e \<Rightarrow> Inl e | Inr p \<Rightarrow> Inr (Some p)) of
                     Inl e \<Rightarrow> Inl ValueError
                   | Inr p \<Rightarrow>
                       if f = t then Inl ValueError
                       else Inr \<lparr>from_square = f, to_square = t, promotion = p,
                                 drop_type = None\<rparr>)))"
    unfolding from_uci_def using ne len by (simp only: if_False if_True, simp)
  also have "\<dots> = Inr \<lparr>from_square = int i, to_square = int j, promotion = Some QUEEN,
                 drop_type = None\<rparr>"
    unfolding t1 t2 n4 ia ib q using assms by simp
  finally show ?thesis .
qed

lemma square_name_nth:
  "0 \<le> sq \<Longrightarrow> sq < 64 \<Longrightarrow> square_name sq = Inr (SQUARE_NAMES ! nat sq)"
  by (simp add: square_name_def getitem_def length_SQUARE_NAMES)

lemma square_file_square:
  "0 \<le> f \<Longrightarrow> f < 8 \<Longrightarrow> square_file (square f r) = f"
proof -
  assume "0 \<le> f" "f < 8"
  have "square f r AND 7 = take_bit 3 (square f r)"
    by (simp add: take_bit_eq_mask mask_eq_exp_minus_1)
  also have "\<dots> = (r * 8 + f) mod 8"
    by (simp add: take_bit_eq_mod square_def)
  also have "\<dots> = f"
    using \<open>0 \<le> f\<close> \<open>f < 8\<close> by simp
  finally show ?thesis by (simp add: square_file_def)
qed

lemma square_rank_square:
  "0 \<le> f \<Longrightarrow> f < 8 \<Longrightarrow> square_rank (square f r) = r"
  by (simp add: square_rank_def square_def drop_bit_eq_div)

lemma square_rank_div: "square_rank sq = sq div 8"
  by (simp add: square_rank_def drop_bit_eq_div)

section \<open>Facts about the click handlers\<close>

lemma cell_to_square_id_bounds:
  "in_bounds cell \<Longrightarrow> 0 \<le> cell_to_square_id cell \<and> cell_to_square_id cell < 64"
  by (auto simp: in_bounds_def cell_to_square_id_def square_def)

lemma cell_square_name_nth:
  "in_bounds cell \<Longrightarrow>
   cell_square_name cell = Inr (SQUARE_NAMES ! nat (cell_to_square_id cell))"
  using cell_to_square_id_bounds [of cell]
  by (simp add: cell_square_name_def square_name_nth)

lemma parse_square_name:
  "in_bounds cell \<Longrightarrow>
   parse_square (SQUARE_NAMES ! nat (cell_to_square_id cell)) = Inr (cell_to_square_id cell)"
proof -
  assume "in_bounds cell"
  then have b: "nat (cell_to_square_id cell) < length SQUARE_NAMES"
    and i: "int (nat (cell_to_square_id cell)) = cell_to_square_id cell"
    using cell_to_square_id_bounds [of cell] by (auto simp: length_SQUARE_NAMES)
  show ?thesis
    unfolding parse_square_def
    using index_of_nth [OF distinct_SQUARE_NAMES b] i by simp
qed

lemma build_move_squares:
  assumes "0 \<le> a" "a < 64" "0 \<le> d" "d < 64"
  shows "build_move E b (SQUARE_NAMES ! nat a @ SQUARE_NAMES ! nat d) =
           (if a = d then Inl ValueError
            else case piece_at E b a of
                   None \<Rightarrow> Inl AttributeError
                 | Some p \<Rightarrow>
                     Inr \<lparr>from_square = a, to_square = d,
                          promotion =
                            (if piece_type p = PAWN \<and> (square_rank d = 7 \<or> square_rank d = 0)
                             then Some QUEEN else None),
                          drop_type = None\<rparr>)"
proof -
  have i: "nat a < 64" "nat d < 64" "int (nat a) = a" "int (nat d) = d"
    using assms by simp_all
  show ?thesis
  proof (cases "a = d")
    case True
    then show ?thesis
      using from_uci_names [OF i(1) i(2)] by (simp add: build_move_def)
  next
    case False
    then have ne: "nat a \<noteq> nat d"
      using assms by simp
    show ?thesis
      using from_uci_names [OF i(1) i(2)] from_uci_names_q [OF i(1) i(2) ne] ne False i(3,4)
      by (auto simp: build_move_def split: option.splits)
  qed
qed

lemma left_click_first:
  assumes "selected_square_coords st = None"
    and "in_bounds (x div SQUARE_SIZE, y div SQUARE_SIZE)"
  shows "left_click E st x y =
     Inr (case piece_at E (game_board st) (cell_to_square_id (x div SQUARE_SIZE, y div SQUARE_SIZE)) of
            None \<Rightarrow> st
          | Some p \<Rightarrow>
              if color p = turn E (game_board st)
              then st\<lparr>selected_square_coords := Some (x div SQUARE_SIZE, y div SQUARE_SIZE)\<rparr>
              else st)"
proof -
  have b: "0 \<le> x div SQUARE_SIZE \<and> x div SQUARE_SIZE < 8 \<and> 0 \<le> y div SQUARE_SIZE \<and> y div SQUARE_SIZE < 8"
    using assms(2) by (simp add: in_bounds_def)
  show ?thesis
    unfolding left_click_def Let_def
    using b assms(1) cell_square_name_nth [OF assms(2)] parse_square_name [OF assms(2)]
    by (simp add: first_click_def split: option.splits)
qed

lemma left_click_second:
  assumes "selected_square_coords st = Some origin"
    and "in_bounds origin"
    and "in_bounds (x div SQUARE_SIZE, y div SQUARE_SIZE)"
  shows "left_click E st x y =
     (case build_move E (game_board st)
             (SQUARE_NAMES ! nat (cell_to_square_id origin) @
              SQUARE_NAMES ! nat (cell_to_square_id (x div SQUARE_SIZE, y div SQUARE_SIZE))) of
        Inl e \<Rightarrow> if e = ValueError then Inr (st\<lparr>selected_square_coords := None\<rparr>) else Inl e
      | Inr m \<Rightarrow>
          Inr (st\<lparr>game_board :=
                     (if legal_moves E (game_board st) m
                      then push E (game_board st) m else game_board st),
                   selected_square_coords := None,
                   built_moves := m # built_moves st\<rparr>))"
proof -
  have b: "0 \<le> x div SQUARE_SIZE \<and> x div SQUARE_SIZE < 8 \<and> 0 \<le> y div SQUARE_SIZE \<and> y div SQUARE_SIZE < 8"
    using assms(3) by (simp add: in_bounds_def)
  show ?thesis
    unfolding left_click_def Let_def
    using b assms(1) cell_square_name_nth [OF assms(3)] cell_square_name_nth [OF assms(2)]
    by (simp add: second_click_def)
qed

lemma left_click_outside:
  "\<not> in_bounds (x div SQUARE_SIZE, y div SQUARE_SIZE) \<Longrightarrow> left_click E st x y = Inr st"
  by (auto simp: left_click_def in_bounds_def Let_def)

lemma handle_event_left_click:
  "handle_event E st (MOUSEBUTTONDOWN 1 (x, y)) = left_click E st x y"
  by (simp add: handle_event_def)

lemma handle_event_other:
  "(\<forall>pos. ev \<noteq> MOUSEBUTTONDOWN 1 pos) \<Longrightarrow>
   handle_event E st ev = Inr (if ev = QUIT then st\<lparr>running := False\<rparr> else st)"
  by (cases ev) (auto simp: handle_event_def)

lemma selected_in_bounds:
  "selection_invariant E st \<Longrightarrow> selected_square_coords st = Some origin \<Longrightarrow> in_bounds origin"
  by (cases origin) (simp add: selection_invariant_def in_bounds_def)

lemma selected_piece:
  "selection_invariant E st \<Longrightarrow> selected_square_coords st = Some origin \<Longrightarrow>
   \<exists>p. piece_at E (game_board st) (cell_to_square_id origin) = Some p \<and>
       color p = turn E (game_board st)"
  by (cases origin) (auto simp: selection_invariant_def split: option.splits)

lemma left_click_second_invariant:
  assumes inv: "selection_invariant E st"
    and sel: "selected_square_coords st = Some origin"
    and clk: "in_bounds (x div SQUARE_SIZE, y div SQUARE_SIZE)"
  shows "\<exists>st'. left_click E st x y = Inr st' \<and> selected_square_coords st' = None"
proof -
  let ?cell = "(x div SQUARE_SIZE, y div SQUARE_SIZE)"
  have ob: "in_bounds origin"
    using inv sel by (rule selected_in_bounds)
  obtain p where p: "piece_at E (game_board st) (cell_to_square_id origin) = Some p"
    using selected_piece [OF inv sel] by blast
  have bm: "build_move E (game_board st)
              (SQUARE_NAMES ! nat (cell_to_square_id origin) @
               SQUARE_NAMES ! nat (cell_to_square_id ?cell)) = Inl ValueError \<or>
            (\<exists>m. build_move E (game_board st)
              (SQUARE_NAMES ! nat (cell_to_square_id origin) @
               SQUARE_NAMES ! nat (cell_to_square_id ?cell)) = Inr m)"
    using cell_to_square_id_bounds [OF ob] cell_to_square_id_bounds [OF clk] p
    by (simp add: build_move_squares)
  then show ?thesis
    unfolding left_click_second [OF sel ob clk] by auto
qed

lemma selection_invariant_running:
  "selection_invariant E (st\<lparr>running := r\<rparr>) = selection_invariant E st"
  by (simp add: selection_invariant_def split: option.splits prod.splits)

lemma handle_event_invariant:
  assumes "selection_invariant E st" and "handle_event E st ev = Inr st'"
  shows "selection_invariant E st'"
proof (cases "\<exists>pos. ev = MOUSEBUTTONDOWN 1 pos")
  case False
  then have "st' = (if ev = QUIT then st\<lparr>running := False\<rparr> else st)"
    using handle_event_other [of ev E st] assms(2) by simp
  then show ?thesis
    using assms(1) by (simp add: selection_invariant_running)
next
  case True
  then obtain x y where ev: "ev = MOUSEBUTTONDOWN 1 (x, y)"
    by auto
  then have lc: "left_click E st x y = Inr st'"
    using assms(2) by (simp add: handle_event_left_click)
  let ?cell = "(x div SQUARE_SIZE, y div SQUARE_SIZE)"
  show ?thesis
  proof (cases "in_bounds ?cell")
    case False
    then show ?thesis
      using lc assms(1) by (simp add: left_click_outside)
  next
    case clk: True
    show ?thesis
    proof (cases "selected_square_coords st")
      case None
      have "selection_invariant E st'"
        using lc clk None unfolding left_click_first [OF None clk]
        by (auto simp: selection_invariant_def in_bounds_def split: option.splits if_splits)
      then show ?thesis .
    next
      case (Some origin)
      then have "selected_square_coords st' = None"
        using left_click_second_invariant [OF assms(1) Some clk] lc by auto
      then show ?thesis
        by (simp add: selection_invariant_def)
    qed
  qed
qed

lemma for_events_invariant:
  "selection_invariant E st \<Longrightarrow> for_events E st evs = Inr st' \<Longrightarrow> selection_invariant E st'"
proof (induction evs arbitrary: st)
  case Nil
  then show ?case by simp
next
  case (Cons ev evs)
  then show ?case
    by (auto split: sum.splits dest: handle_event_invariant)
qed

lemma initial_state_invariant: "selection_invariant E (initial_state E)"
  by (simp add: selection_invariant_def initial_state_def)

lemma main_loop_invariant:
  "selection_invariant E st \<Longrightarrow> main_loop E st frames = Inr st' \<Longrightarrow> selection_invariant E st'"
proof (induction frames arbitrary: st)
  case Nil
  then show ?case by simp
next
  case (Cons evs frames)
  then show ?case
    by (auto split: sum.splits if_splits dest: for_events_invariant)
qed

lemma stub_first_click:
  "main (stub_engine stub_start) [[MOUSEBUTTONDOWN 1 (330, 490)]] = Inr stub_selected"
  by code_simp

section \<open>The claims\<close>

subsection \<open>The selection state machine\<close>

text \<open>
  Claim C1. In every state that \<open>main\<close> reaches with a cell selected, a left click on any
  cell of the board (the origin itself, a legal or an illegal destination) is handled
  without an exception and leaves \<open>selected_square_coords\<close> at \<^verbatim>\<open>None\<close>: a selection
  never outlives the second click.
\<close>

theorem second_click_always_clears_selection:
  assumes "main E frames = Inr st"
    and "selected_square_coords st = Some origin"
    and "in_bounds (x div SQUARE_SIZE, y div SQUARE_SIZE)"
  shows "\<exists>st'. handle_event E st (MOUSEBUTTONDOWN 1 (x, y)) = Inr st'
           \<and> selected_square_coords st' = None"
proof -
  have "main_loop E (initial_state E) frames = Inr st"
    using assms(1) by (simp add: main_def)
  with initial_state_invariant have "selection_invariant E st"
    by (rule main_loop_invariant)
  then show ?thesis
    unfolding handle_event_left_click
    using assms(2,3) by (rule left_click_second_invariant)
qed

theorem second_click_always_clears_selection_witness:
  "main (stub_engine stub_start) [[MOUSEBUTTONDOWN 1 (330, 490)]] = Inr stub_selected
   \<and> selected_square_coords stub_selected = Some (4, 6)
   \<and> in_bounds (330 div SQUARE_SIZE, 90 div SQUARE_SIZE)
   \<and> (\<exists>st'. handle_event (stub_engine stub_start) stub_selected (MOUSEBUTTONDOWN 1 (330, 90)) =
         Inr st'
       \<and> selected_square_coords st' = None)"
proof -
  have sel: "selected_square_coords stub_selected = Some (4, 6)"
    by (simp add: stub_selected_def)
  have clk: "in_bounds (330 div SQUARE_SIZE, 90 div SQUARE_SIZE)"
    by (simp add: in_bounds_def SQUARE_SIZE_def)
  show ?thesis
    using second_click_always_clears_selection [OF stub_first_click sel clk]
      stub_first_click sel clk by simp
qed

text \<open>
  Claim C2. With nothing selected, a left click on a cell of the board selects that cell
  if and only if its square holds a piece of the side to move, as the engine answers at
  that moment; on an empty square or a piece of the other side the state is returned as
  it was.
\<close>

theorem first_click_selects_own_piece:
  assumes "selected_square_coords st = None"
    and "in_bounds (x div SQUARE_SIZE, y div SQUARE_SIZE)"
  shows "handle_event E st (MOUSEBUTTONDOWN 1 (x, y)) =
           Inr (if \<exists>p. piece_at E (game_board st)
                         (cell_to_square_id (x div SQUARE_SIZE, y div SQUARE_SIZE)) = Some p
                       \<and> color p = turn E (game_board st)
                then st\<lparr>selected_square_coords := Some (x div SQUARE_SIZE, y div SQUARE_SIZE)\<rparr>
                else st)"
  unfolding handle_event_left_click left_click_first [OF assms]
  by (auto split: option.splits)

theorem first_click_selects_own_piece_witness:
  "handle_event (stub_engine stub_start) (initial_state (stub_engine stub_start))
      (MOUSEBUTTONDOWN 1 (330, 490)) = Inr stub_selected
   \<and> handle_event (stub_engine stub_start) (initial_state (stub_engine stub_start))
      (MOUSEBUTTONDOWN 1 (330, 90)) = Inr (initial_state (stub_engine stub_start))
   \<and> handle_event (stub_engine stub_start) (initial_state (stub_engine stub_start))
      (MOUSEBUTTONDOWN 1 (10, 10)) = Inr (initial_state (stub_engine stub_start))"
proof -
  let ?E = "stub_engine stub_start"
  have sel: "selected_square_coords (initial_state ?E) = None"
    by (simp add: initial_state_def)
  have b: "in_bounds (330 div SQUARE_SIZE, 490 div SQUARE_SIZE)"
    "in_bounds (330 div SQUARE_SIZE, 90 div SQUARE_SIZE)"
    "in_bounds (10 div SQUARE_SIZE, 10 div SQUARE_SIZE)"
    by (simp_all add: in_bounds_def SQUARE_SIZE_def)
  show ?thesis
    using first_click_selects_own_piece [OF sel b(1), of ?E]
      first_click_selects_own_piece [OF sel b(2), of ?E]
      first_click_selects_own_piece [OF sel b(3), of ?E]
    by (simp add: initial_state_def stub_engine_def stub_start_def stub_selected_def
        SQUARE_SIZE_def cell_to_square_id_def square_def WHITE_def BLACK_def)
qed

subsection \<open>Coordinates\<close>

text \<open>
  Claim C3. For every cell \<open>(column, row)\<close> with both coordinates in 0..7, mapping the
  cell to its square and the square back gives the cell again; the square has the file
  \<open>column\<close> and the rank \<open>7 - row\<close>.
\<close>

theorem coordinate_round_trip:
  assumes "0 \<le> column" "column < 8" "0 \<le> row" "row < 8"
  shows "square_id_to_cell (cell_to_square_id (column, row)) = (column, row)
       \<and> square_file (cell_to_square_id (column, row)) = column
       \<and> square_rank (cell_to_square_id (column, row)) = 7 - row"
  using assms
  by (simp add: square_id_to_cell_def cell_to_square_id_def square_file_square
      square_rank_square)

theorem coordinate_round_trip_witness:
  "square_id_to_cell (cell_to_square_id (4, 6)) = (4, 6)
   \<and> square_file (cell_to_square_id (4, 6)) = 4
   \<and> square_rank (cell_to_square_id (4, 6)) = 7 - 6
   \<and> cell_to_square_id (4, 6) = E2"
  using coordinate_round_trip [of 4 6]
  by (simp add: cell_to_square_id_def square_def E2_def)

subsection \<open>Building the move\<close>

text \<open>
  Claim C4. On a position of the engine (no pawn on the first or last rank), for every
  origin and destination square: when the origin holds a pawn and the rank of the
  destination is 7 or 0, building the move from the two square names does not fail and
  gives the move from origin to destination with promotion to the queen.
\<close>

theorem pawn_to_far_rank_promotes_to_queen:
  assumes "0 \<le> origin" "origin < 64" "0 \<le> destination" "destination < 64"
    and "pawns_off_back_ranks E b"
    and "piece_at E b origin = Some p" "piece_type p = PAWN"
    and "square_rank destination = 7 \<or> square_rank destination = 0"
  shows "\<exists>n1 n2. square_name origin = Inr n1 \<and> square_name destination = Inr n2
           \<and> build_move E b (n1 @ n2) = Inr (new_Move origin destination (Some QUEEN))"
proof -
  have "origin \<in> set [0..63]"
    using assms(1,2) by simp
  then have "square_rank origin \<noteq> 0 \<and> square_rank origin \<noteq> 7"
    using assms(5,6,7) unfolding pawns_off_back_ranks_def by fastforce
  then have "origin \<noteq> destination"
    using assms(8) by auto
  then have "build_move E b (SQUARE_NAMES ! nat origin @ SQUARE_NAMES ! nat destination) =
               Inr (new_Move origin destination (Some QUEEN))"
    using assms by (simp add: build_move_squares new_Move_def)
  then show ?thesis
    using assms(1-4) by (simp add: square_name_nth)
qed

theorem pawn_to_far_rank_promotes_to_queen_witness:
  "pawns_off_back_ranks (stub_engine stub_promotion) stub_promotion
   \<and> piece_at (stub_engine stub_promotion) stub_promotion 52 =
       Some \<lparr>piece_type = PAWN, color = WHITE\<rparr>
   \<and> square_rank 60 = 7
   \<and> square_name 52 = Inr ''e7'' \<and> square_name 60 = Inr ''e8''
   \<and> build_move (stub_engine stub_promotion) stub_promotion ''e7e8'' =
       Inr \<lparr>from_square = 52, to_square = 60, promotion = Some QUEEN, drop_type = None\<rparr>"
proof -
  let ?E = "stub_engine stub_promotion"
  have off: "pawns_off_back_ranks ?E stub_promotion"
    by (simp add: pawns_off_back_ranks_def stub_engine_def stub_promotion_def square_rank_div
        PAWN_def KING_def)
  have pc: "piece_at ?E stub_promotion 52 = Some \<lparr>piece_type = PAWN, color = WHITE\<rparr>"
    by (simp add: stub_engine_def stub_promotion_def)
  have rk: "square_rank 60 = 7 \<or> square_rank 60 = 0"
    by (simp add: square_rank_div)
  have n: "square_name 52 = Inr ''e7''" "square_name 60 = Inr ''e8''"
    by (simp_all add: square_name_nth SQUARE_NAMES_unfold)
  show ?thesis
    using pawn_to_far_rank_promotes_to_queen [OF _ _ _ _ off pc _ rk] off pc n
    by (simp add: square_rank_div new_Move_def)
qed

subsection \<open>The status line\<close>

text \<open>
  Claim C5. The status line follows checkmate, then stalemate, then check, then the plain
  turn: a checkmated position shows the checkmate text with the winner opposite to the
  side to move; the stalemate text is shown exactly when the position is stalemate and
  not checkmate; the check suffix exactly when it is check and neither of the two; the
  plain turn text exactly when it is none of the three.
\<close>

theorem status_precedence:
  "(is_checkmate E b \<longrightarrow>
      status_text E b =
        ''CHECKMATE! '' @ (if turn E b = WHITE then ''Black Wins'' else ''White Wins''))
   \<and> (status_text E b = ''STALEMATE (Draw)'' \<longleftrightarrow>
        \<not> is_checkmate E b \<and> is_stalemate E b)
   \<and> (status_text E b =
        ''Turn: '' @ (if turn E b = WHITE then ''White'' else ''Black'') @ '' (CHECK)'' \<longleftrightarrow>
        \<not> is_checkmate E b \<and> \<not> is_stalemate E b \<and> is_check E b)
   \<and> (status_text E b = ''Turn: '' @ (if turn E b = WHITE then ''White'' else ''Black'') \<longleftrightarrow>
        \<not> is_checkmate E b \<and> \<not> is_stalemate E b \<and> \<not> is_check E b)"
  unfolding status_text_def Let_def
  by (cases "turn E b = WHITE") auto

theorem status_precedence_witness:
  "is_checkmate (stub_engine stub_mate) stub_mate
   \<and> is_check (stub_engine stub_mate) stub_mate
   \<and> status_text (stub_engine stub_mate) stub_mate = ''CHECKMATE! Black Wins''
   \<and> status_text (stub_engine stub_mate) stub_mate \<noteq> ''Turn: White (CHECK)''"
  using status_precedence [of "stub_engine stub_mate" stub_mate]
  by (simp add: stub_engine_def stub_mate_def WHITE_def)

subsection \<open>Rejected clicks and moves\<close>

text \<open>
  Claim C6. With a cell selected, a left click on a cell of the board whose built
  candidate move is not among the legal moves of the position changes neither the board
  nor the side to move, and clears the selection: nothing is pushed.
\<close>

theorem illegal_move_is_discarded:
  assumes "selected_square_coords st = Some origin"
    and "in_bounds (x div SQUARE_SIZE, y div SQUARE_SIZE)"
    and "cell_square_name origin = Inr start_square_name"
    and "cell_square_name (x div SQUARE_SIZE, y div SQUARE_SIZE) = Inr chess_square_name"
    and "build_move E (game_board st) (start_square_name @ chess_square_name) = Inr m"
    and "\<not> legal_moves E (game_board st) m"
  shows "\<exists>st'. handle_event E st (MOUSEBUTTONDOWN 1 (x, y)) = Inr st'
           \<and> game_board st' = game_board st
           \<and> turn E (game_board st') = turn E (game_board st)
           \<and> selected_square_coords st' = None
           \<and> built_moves st' = m # built_moves st"
  using assms
  by (simp add: handle_event_def left_click_def second_click_def in_bounds_def Let_def)

theorem illegal_move_is_discarded_witness:
  "selected_square_coords stub_selected = Some (4, 6)
   \<and> in_bounds (330 div SQUARE_SIZE, 250 div SQUARE_SIZE)
   \<and> cell_square_name (4, 6) = Inr ''e2''
   \<and> cell_square_name (330 div SQUARE_SIZE, 250 div SQUARE_SIZE) = Inr ''e5''
   \<and> build_move (stub_engine stub_start) stub_start ''e2e5'' = Inr (new_Move 12 36 None)
   \<and> \<not> legal_moves (stub_engine stub_start) stub_start (new_Move 12 36 None)
   \<and> (\<exists>st'. handle_event (stub_engine stub_start) stub_selected
               (MOUSEBUTTONDOWN 1 (330, 250)) = Inr st'
         \<and> game_board st' = stub_start
         \<and> selected_square_coords st' = None)"
proof -
  let ?E = "stub_engine stub_start"
  have sel: "selected_square_coords stub_selected = Some (4, 6)"
    by (simp add: stub_selected_def)
  have clk: "in_bounds (330 div SQUARE_SIZE, 250 div SQUARE_SIZE)"
    by (simp add: in_bounds_def SQUARE_SIZE_def)
  have n1: "cell_square_name (4, 6) = Inr ''e2''"
    by code_simp
  have n2: "cell_square_name (330 div SQUARE_SIZE, 250 div SQUARE_SIZE) = Inr ''e5''"
    by code_simp
  have bm: "build_move ?E (game_board stub_selected) (''e2'' @ ''e5'') = Inr (new_Move 12 36 None)"
    by code_simp
  have il: "\<not> legal_moves ?E (game_board stub_selected) (new_Move 12 36 None)"
    by code_simp
  have gb: "game_board stub_selected = stub_start"
    by (simp add: stub_selected_def)
  show ?thesis
    using illegal_move_is_discarded [OF sel clk n1 n2 bm il] sel clk n1 n2 bm il
    by (auto simp: gb)
qed

text \<open>
  Claim C7. A left click at a pixel whose column \<open>x div SQUARE_SIZE\<close> or row
  \<open>y div SQUARE_SIZE\<close> is outside 0..7 is ignored, whatever the engine and the selection:
  the whole state comes back as it was, so the selection, the board and the history of
  built moves are unchanged.
\<close>

theorem out_of_bounds_click_ignored:
  assumes "\<not> (0 \<le> x div SQUARE_SIZE \<and> x div SQUARE_SIZE < 8 \<and>
              0 \<le> y div SQUARE_SIZE \<and> y div SQUARE_SIZE < 8)"
  shows "handle_event E st (MOUSEBUTTONDOWN 1 (x, y)) = Inr st"
  using assms by (auto simp: handle_event_def left_click_def Let_def)

theorem out_of_bounds_click_ignored_witness:
  "\<not> (0 \<le> (700::int) div SQUARE_SIZE \<and> (700::int) div SQUARE_SIZE < 8 \<and>
      0 \<le> (90::int) div SQUARE_SIZE \<and> (90::int) div SQUARE_SIZE < 8)
   \<and> handle_event (stub_engine stub_start) stub_selected (MOUSEBUTTONDOWN 1 (700, 90)) =
       Inr stub_selected
   \<and> handle_event (stub_engine stub_start) stub_selected (MOUSEBUTTONDOWN 1 (- 5, 90)) =
       Inr stub_selected"
  using out_of_bounds_click_ignored [of 700 90 "stub_engine stub_start" stub_selected]
    out_of_bounds_click_ignored [of "- 5" 90 "stub_engine stub_start" stub_selected]
  by (simp add: SQUARE_SIZE_def)

text \<open>
  Claim C8. In a state that satisfies the selection invariant, with a cell selected, a
  left click on a cell of the board raises nothing. When the two square names do not
  parse into a move, which is the case of a click on the selected cell itself, the click
  is handled as for an illegal move: the board is kept and the selection is cleared.
\<close>

theorem second_click_raises_nothing:
  assumes "selection_invariant E st"
    and "selected_square_coords st = Some origin"
    and "in_bounds (x div SQUARE_SIZE, y div SQUARE_SIZE)"
  shows "(\<exists>st'. handle_event E st (MOUSEBUTTONDOWN 1 (x, y)) = Inr st')
       \<and> (\<forall>start_square_name chess_square_name e.
            cell_square_name origin = Inr start_square_name \<longrightarrow>
            cell_square_name (x div SQUARE_SIZE, y div SQUARE_SIZE) = Inr chess_square_name \<longrightarrow>
            from_uci (start_square_name @ chess_square_name) = Inl e \<longrightarrow>
            handle_event E st (MOUSEBUTTONDOWN 1 (x, y)) =
              Inr (st\<lparr>selected_square_coords := None\<rparr>))
       \<and> ((x div SQUARE_SIZE, y div SQUARE_SIZE) = origin \<longrightarrow>
            handle_event E st (MOUSEBUTTONDOWN 1 (x, y)) =
              Inr (st\<lparr>selected_square_coords := None\<rparr>))"
proof -
  let ?cell = "(x div SQUARE_SIZE, y div SQUARE_SIZE)"
  let ?a = "cell_to_square_id origin" and ?d = "cell_to_square_id ?cell"
  let ?uci = "SQUARE_NAMES ! nat ?a @ SQUARE_NAMES ! nat ?d"
  have ob: "in_bounds origin"
    using assms(1,2) by (rule selected_in_bounds)
  have ra: "0 \<le> ?a \<and> ?a < 64" and rd: "0 \<le> ?d \<and> ?d < 64"
    using cell_to_square_id_bounds ob assms(3) by blast+
  have na: "nat ?a < 64" and nd: "nat ?d < 64"
    using ra rd by auto
  have lc: "handle_event E st (MOUSEBUTTONDOWN 1 (x, y)) =
     (case build_move E (game_board st) ?uci of
        Inl e \<Rightarrow> if e = ValueError then Inr (st\<lparr>selected_square_coords := None\<rparr>) else Inl e
      | Inr m \<Rightarrow>
          Inr (st\<lparr>game_board :=
                     (if legal_moves E (game_board st) m
                      then push E (game_board st) m else game_board st),
                   selected_square_coords := None,
                   built_moves := m # built_moves st\<rparr>))"
    unfolding handle_event_left_click by (rule left_click_second [OF assms(2) ob assms(3)])
  have no_raise: "\<exists>st'. handle_event E st (MOUSEBUTTONDOWN 1 (x, y)) = Inr st'"
    using left_click_second_invariant [OF assms] by (auto simp: handle_event_left_click)
  have parse: "handle_event E st (MOUSEBUTTONDOWN 1 (x, y)) =
                 Inr (st\<lparr>selected_square_coords := None\<rparr>)"
    if "from_uci ?uci = Inl e" for e
  proof -
    have "?a = ?d"
      using that from_uci_names [OF na nd] ra rd by (auto split: if_splits)
    then have "build_move E (game_board st) ?uci = Inl ValueError"
      using ra rd by (simp add: build_move_squares)
    then show ?thesis
      unfolding lc by simp
  qed
  have same: "handle_event E st (MOUSEBUTTONDOWN 1 (x, y)) =
                Inr (st\<lparr>selected_square_coords := None\<rparr>)"
    if "?cell = origin"
  proof -
    have "build_move E (game_board st) ?uci = Inl ValueError"
      using that ra by (simp add: build_move_squares)
    then show ?thesis
      unfolding lc by simp
  qed
  show ?thesis
    using no_raise parse same
    by (auto simp: cell_square_name_nth [OF ob] cell_square_name_nth [OF assms(3)])
qed

theorem second_click_raises_nothing_witness:
  "selection_invariant (stub_engine stub_start) stub_selected
   \<and> selected_square_coords stub_selected = Some (4, 6)
   \<and> in_bounds (330 div SQUARE_SIZE, 490 div SQUARE_SIZE)
   \<and> cell_square_name (4, 6) = Inr ''e2''
   \<and> cell_square_name (330 div SQUARE_SIZE, 490 div SQUARE_SIZE) = Inr ''e2''
   \<and> from_uci (''e2'' @ ''e2'') = Inl ValueError
   \<and> handle_event (stub_engine stub_start) stub_selected (MOUSEBUTTONDOWN 1 (330, 490)) =
       Inr (stub_selected\<lparr>selected_square_coords := None\<rparr>)"
proof -
  let ?E = "stub_engine stub_start"
  have inv: "selection_invariant ?E stub_selected"
    by code_simp
  have sel: "selected_square_coords stub_selected = Some (4, 6)"
    by (simp add: stub_selected_def)
  have clk: "in_bounds (330 div SQUARE_SIZE, 490 div SQUARE_SIZE)"
    by (simp add: in_bounds_def SQUARE_SIZE_def)
  have n1: "cell_square_name (4, 6) = Inr ''e2''"
    by code_simp
  have n2: "cell_square_name (330 div SQUARE_SIZE, 490 div SQUARE_SIZE) = Inr ''e2''"
    by code_simp
  have fu: "from_uci (''e2'' @ ''e2'') = Inl ValueError"
    by code_simp
  show ?thesis
    using second_click_raises_nothing [OF inv sel clk] inv sel clk n1 n2 fu
    by blast
qed

subsection \<open>A scenario and the other events\<close>

text \<open>
  Claim C9. On an engine whose starting position has a white pawn on e2, White to move,
  e2e4 among its legal moves and a push that passes the turn: from the initial state, a left
  click on the cell of e2 followed by a left click on the cell of e4, in two frames or in
  one, pushes the move e2e4 to the board and leaves no selection; the side to move is
  then Black.
\<close>

theorem e2_e4_scenario:
  assumes pawn: "piece_at E (Board E) E2 = Some \<lparr>piece_type = PAWN, color = WHITE\<rparr>"
    and white: "turn E (Board E) = WHITE"
    and legal: "legal_moves E (Board E) (new_Move E2 E4 None)"
    and flips: "turn E (push E (Board E) (new_Move E2 E4 None)) = (\<not> turn E (Board E))"
    and c1: "in_bounds (x1 div SQUARE_SIZE, y1 div SQUARE_SIZE)"
      "cell_to_square_id (x1 div SQUARE_SIZE, y1 div SQUARE_SIZE) = E2"
    and c2: "in_bounds (x2 div SQUARE_SIZE, y2 div SQUARE_SIZE)"
      "cell_to_square_id (x2 div SQUARE_SIZE, y2 div SQUARE_SIZE) = E4"
  shows "main E [[MOUSEBUTTONDOWN 1 (x1, y1)], [MOUSEBUTTONDOWN 1 (x2, y2)]] =
           Inr \<lparr>game_board = push E (Board E) (new_Move E2 E4 None), running = True,
                selected_square_coords = None, built_moves = [new_Move E2 E4 None]\<rparr>
       \<and> main E [[MOUSEBUTTONDOWN 1 (x1, y1), MOUSEBUTTONDOWN 1 (x2, y2)]] =
           Inr \<lparr>game_board = push E (Board E) (new_Move E2 E4 None), running = True,
                selected_square_coords = None, built_moves = [new_Move E2 E4 None]\<rparr>
       \<and> turn E (push E (Board E) (new_Move E2 E4 None)) = BLACK"
proof -
  let ?e2e4 = "new_Move E2 E4 None"
  let ?s0 = "initial_state E"
  let ?o = "(x1 div SQUARE_SIZE, y1 div SQUARE_SIZE)"
  let ?s1 = "?s0\<lparr>selected_square_coords := Some ?o\<rparr>"
  let ?s2 = "\<lparr>game_board = push E (Board E) ?e2e4, running = True,
              selected_square_coords = None, built_moves = [?e2e4]\<rparr>"
  have sel0: "selected_square_coords ?s0 = None" and b0: "game_board ?s0 = Board E"
    by (simp_all add: initial_state_def)
  have first: "handle_event E ?s0 (MOUSEBUTTONDOWN 1 (x1, y1)) = Inr ?s1"
    unfolding handle_event_left_click left_click_first [OF sel0 c1(1)]
    using pawn white by (simp add: b0 c1(2))
  have sel1: "selected_square_coords ?s1 = Some ?o" and b1: "game_board ?s1 = Board E"
    by (simp_all add: initial_state_def)
  have bm: "build_move E (Board E) (SQUARE_NAMES ! nat E2 @ SQUARE_NAMES ! nat E4) = Inr ?e2e4"
    using pawn build_move_squares [of E2 E4 E "Board E"]
    by (simp add: E2_def E4_def new_Move_def square_rank_div)
  have second: "handle_event E ?s1 (MOUSEBUTTONDOWN 1 (x2, y2)) = Inr ?s2"
    unfolding handle_event_left_click left_click_second [OF sel1 c1(1) c2(1)]
    using bm legal by (simp add: b1 c1(2) c2(2) initial_state_def)
  have run: "running ?s0" "running ?s1"
    by (simp_all add: initial_state_def)
  have "turn E (push E (Board E) ?e2e4) = BLACK"
    using flips white by (simp add: WHITE_def BLACK_def)
  then show ?thesis
    using first second run by (simp add: main_def)
qed

theorem e2_e4_scenario_witness:
  "main (stub_engine stub_start) [[MOUSEBUTTONDOWN 1 (330, 490)], [MOUSEBUTTONDOWN 1 (330, 330)]] =
     Inr \<lparr>game_board = stub_push stub_start (new_Move 12 28 None), running = True,
          selected_square_coords = None, built_moves = [new_Move 12 28 None]\<rparr>
   \<and> white_to_move stub_start
   \<and> \<not> white_to_move (stub_push stub_start (new_Move 12 28 None))"
proof -
  let ?E = "stub_engine stub_start"
  let ?m = "new_Move E2 E4 None"
  have pawn: "piece_at ?E (Board ?E) E2 = Some \<lparr>piece_type = PAWN, color = WHITE\<rparr>"
    by (simp add: stub_engine_def stub_start_def E2_def)
  have white: "turn ?E (Board ?E) = WHITE"
    by (simp add: stub_engine_def stub_start_def WHITE_def)
  have legal: "legal_moves ?E (Board ?E) ?m"
    by (simp add: stub_engine_def stub_start_def E2_def E4_def)
  have flips: "turn ?E (push ?E (Board ?E) ?m) = (\<not> turn ?E (Board ?E))"
    by (simp add: stub_engine_def stub_start_def stub_push_def E2_def new_Move_def)
  have c1: "in_bounds (330 div SQUARE_SIZE, 490 div SQUARE_SIZE)"
    "cell_to_square_id (330 div SQUARE_SIZE, 490 div SQUARE_SIZE) = E2"
    by (simp_all add: in_bounds_def SQUARE_SIZE_def cell_to_square_id_def square_def E2_def)
  have c2: "in_bounds (330 div SQUARE_SIZE, 330 div SQUARE_SIZE)"
    "cell_to_square_id (330 div SQUARE_SIZE, 330 div SQUARE_SIZE) = E4"
    by (simp_all add: in_bounds_def SQUARE_SIZE_def cell_to_square_id_def square_def E4_def)
  have st: "Board ?E = stub_start" "push ?E = stub_push" "turn ?E = white_to_move"
    by (simp_all add: stub_engine_def)
  show ?thesis
    using e2_e4_scenario [OF pawn white legal flips c1 c2]
    unfolding st by (simp add: WHITE_def BLACK_def stub_start_def E2_def E4_def)
qed

text \<open>
  Claim C10. Only a mouse button pressed with button 1 reaches the click handler: every
  other event (another button, a button released, motion, a key, \<open>QUIT\<close>) is handled
  without an exception and leaves the selection, the board and the history of built moves
  as they were; only \<open>QUIT\<close> clears \<open>running\<close>.
\<close>

theorem other_events_keep_selection_and_board:
  assumes "\<forall>pos. ev \<noteq> MOUSEBUTTONDOWN 1 pos"
  shows "\<exists>st'. handle_event E st ev = Inr st'
           \<and> selected_square_coords st' = selected_square_coords st
           \<and> game_board st' = game_board st
           \<and> built_moves st' = built_moves st
           \<and> running st' = (running st \<and> ev \<noteq> QUIT)"
  using handle_event_other [OF assms, of E st] by auto

theorem other_events_keep_selection_and_board_witness:
  "(\<forall>pos. MOUSEBUTTONDOWN 3 (330, 330) \<noteq> MOUSEBUTTONDOWN 1 pos)
   \<and> (\<exists>st'. handle_event (stub_engine stub_start) stub_selected (MOUSEBUTTONDOWN 3 (330, 330)) =
         Inr st'
       \<and> selected_square_coords st' = Some (4, 6)
       \<and> game_board st' = stub_start)"
  using other_events_keep_selection_and_board
    [of "MOUSEBUTTONDOWN 3 (330, 330)" "stub_engine stub_start" stub_selected]
  by (auto simp: stub_selected_def)

end
